theory Spec2Isabelle
  imports Complex_Main
begin

section \<open>Data model of the double auction\<close>

text \<open>
  The development embeds \<^verbatim>\<open>src/llm_agents/auction.py\<close> (class \<^verbatim>\<open>DoubleAuction\<close>).
  Python integers are \<open>int\<close>. Prices, values, costs and surpluses are Python numbers on
  which the code only adds, subtracts, halves, averages and compares; they are modelled
  as rationals, so rounding, infinities and NaN of binary floating point are outside the
  model. Console output is not modelled.
\<close>

text \<open>
  \<^verbatim>\<open>Order\<close> and \<^verbatim>\<open>Trade\<close> come from a module that is not part of the sources; the
  records hold the attributes that \<^verbatim>\<open>auction.py\<close> reads and the keyword arguments it
  passes. The fields \<^verbatim>\<open>quantity\<close>, \<^verbatim>\<open>price\<close> and \<^verbatim>\<open>round\<close> of a trade are named
  \<open>trade_quantity\<close>, \<open>trade_price\<close> and \<open>trade_round\<close> (as the local variables of
  \<^verbatim>\<open>match_orders\<close>), since the field names of two records must differ.
\<close>

record order =
  agent_id :: int
  price :: rat
  quantity :: int
  base_value :: rat
  base_cost :: rat

record trade =
  trade_id :: int
  buyer_id :: int
  seller_id :: int
  trade_quantity :: int
  trade_price :: rat
  buyer_value :: rat
  seller_cost :: rat
  trade_round :: int

text \<open>One dictionary appended to \<^verbatim>\<open>order_book\<close>: keys price, shares, total.\<close>

record book_entry =
  entry_price :: rat
  shares :: int
  total :: rat

text \<open>
  A market agent, as far as the auction looks into it: \<^verbatim>\<open>zi_agent.id\<close>,
  \<^verbatim>\<open>zi_agent.allocation.goods\<close> and the dictionary
  \<^verbatim>\<open>zi_agent.preference_schedule.values\<close> (unit number to value, an association list
  read through \<open>map_of\<close>). Everything else of the object is \<open>rest\<close>.
\<close>

record 'x agent =
  zi_id :: int
  goods :: int
  pref_values :: "(int \<times> rat) list"
  rest :: 'x

text \<open>
  The environment holds agent objects that \<^verbatim>\<open>buyers\<close>, \<^verbatim>\<open>sellers\<close> and
  \<^verbatim>\<open>get_agent\<close> all refer to, so the objects live in a store \<open>objects\<close> indexed by
  reference and the two sequences are lists of references.
\<close>

record 'x environment =
  objects :: "nat \<Rightarrow> 'x agent"
  buyers :: "nat list"
  sellers :: "nat list"
  by_id :: "int \<rightharpoonup> nat"

record 'x auction =
  environment :: "'x environment"
  max_rounds :: int
  current_round :: int
  successful_trades :: "trade list"
  total_surplus_extracted :: rat
  average_prices :: "rat list"
  order_book :: "book_entry list"
  trade_history :: "trade list"
  trade_counter :: int

text \<open>\<^verbatim>\<open>DoubleAuction.__init__\<close>\<close>

definition init :: "'x environment \<Rightarrow> int \<Rightarrow> 'x auction" where
  "init env m =
     \<lparr>environment = env, max_rounds = m, current_round = 0, successful_trades = [],
      total_surplus_extracted = 0, average_prices = [], order_book = [],
      trade_history = [], trade_counter = 0\<rparr>"

section \<open>Matching engine\<close>

text \<open>
  \<^verbatim>\<open>bids.sort(key=lambda x: x.price, reverse=True)\<close>: Python's sort is stable, and with
  \<^verbatim>\<open>reverse=True\<close> it still keeps elements of equal key in their original order (the
  list is reversed, sorted and reversed again). \<^verbatim>\<open>asks.sort(key=lambda x: x.price)\<close>
  is the stable ascending sort.
\<close>

definition sort_bids :: "order list \<Rightarrow> order list" where
  "sort_bids bids = rev (sort_key price (rev bids))"

definition sort_asks :: "order list \<Rightarrow> order list" where
  "sort_asks asks = sort_key price asks"

text \<open>The constructor call \<^verbatim>\<open>Trade(trade_id=self.trade_counter, ...)\<close> of lines 28 to 39.\<close>

definition make_trade :: "int \<Rightarrow> order \<Rightarrow> order \<Rightarrow> int \<Rightarrow> trade" where
  "make_trade counter bid ask round_num =
     \<lparr>trade_id = counter, buyer_id = agent_id bid, seller_id = agent_id ask,
      trade_quantity = min (quantity bid) (quantity ask),
      trade_price = (price bid + price ask) / 2,
      buyer_value = base_value bid, seller_cost = base_cost ask,
      trade_round = round_num\<rparr>"

definition book_entry_of :: "trade \<Rightarrow> book_entry" where
  "book_entry_of t =
     \<lparr>entry_price = trade_price t, shares = trade_quantity t,
      total = trade_price t * of_int (trade_quantity t)\<rparr>"

text \<open>
  The \<^verbatim>\<open>while bids and asks and bids[0].price >= asks[0].price\<close> loop. Both lists are
  mutated by \<^verbatim>\<open>pop(0)\<close>, so the function returns what is left of them next to the
  trades and the updated auction.
\<close>

fun match_loop ::
  "'x auction \<Rightarrow> order list \<Rightarrow> order list \<Rightarrow> int \<Rightarrow> trade list
    \<Rightarrow> trade list \<times> order list \<times> order list \<times> 'x auction" where
  "match_loop s (bid # bids) (ask # asks) round_num trades =
     (if price bid \<ge> price ask then
        let t = make_trade (trade_counter s) bid ask round_num in
        match_loop
          (s\<lparr>trade_counter := trade_counter s + 1,
             order_book := order_book s @ [book_entry_of t]\<rparr>)
          bids asks round_num (trades @ [t])
      else (trades, bid # bids, ask # asks, s))"
| "match_loop s bids asks round_num trades = (trades, bids, asks, s)"

definition match_orders ::
  "'x auction \<Rightarrow> order list \<Rightarrow> order list \<Rightarrow> int
    \<Rightarrow> trade list \<times> order list \<times> order list \<times> 'x auction" where
  "match_orders s bids asks round_num =
     match_loop s (sort_bids bids) (sort_asks asks) round_num []"

text \<open>
  Closed form of the loop: the matched pairs are the longest prefix of the two sorted
  lists, taken side by side, in which every bid price reaches the ask price.
\<close>

definition crossing :: "order \<times> order \<Rightarrow> bool" where
  "crossing p = (price (fst p) \<ge> price (snd p))"

definition matched :: "order list \<Rightarrow> order list \<Rightarrow> (order \<times> order) list" where
  "matched bids asks = takeWhile crossing (zip bids asks)"

fun trades_from :: "int \<Rightarrow> int \<Rightarrow> (order \<times> order) list \<Rightarrow> trade list" where
  "trades_from counter round_num [] = []"
| "trades_from counter round_num (p # ps) =
     make_trade counter (fst p) (snd p) round_num # trades_from (counter + 1) round_num ps"

section \<open>Collaborators\<close>

text \<open>
  What a call into the environment or an agent can end with when it does not return:
  \<open>ValueError\<close> is Python's, raised by \<^verbatim>\<open>max\<close> and \<^verbatim>\<open>min\<close> on an empty sequence;
  \<open>UnknownAgent\<close> is the failed lookup of an identifier; \<open>CollaboratorError\<close> is any
  exception raised inside an agent or the environment.
\<close>

datatype error = ValueError | UnknownAgent int | CollaboratorError string

text \<open>The dictionary returned by \<^verbatim>\<open>_get_market_info\<close>.\<close>

record market_info =
  last_trade_price :: rat
  average_price :: rat
  total_trades :: int
  info_current_round :: int

text \<open>
  The agent and environment methods that \<^verbatim>\<open>auction.py\<close> calls are defined in modules
  that are not part of the sources, so they are parameters of the model. A method of an
  agent may change that agent and may raise: it returns the agent as it leaves it next
  to its result. \<^verbatim>\<open>generate_bid\<close> answers \<open>None\<close> when the agent declines to quote.
  \<open>get_value a k\<close> is \<^verbatim>\<open>a.zi_agent.preference_schedule.get_value(k)\<close>.
\<close>

record 'x collaborators =
  generate_bid :: "'x agent \<Rightarrow> market_info \<Rightarrow> (error + order option) \<times> 'x agent"
  finalize_trade :: "'x agent \<Rightarrow> trade \<Rightarrow> error option \<times> 'x agent"
  get_value :: "'x agent \<Rightarrow> int \<Rightarrow> rat"
  calculate_equilibrium :: "'x environment \<Rightarrow> error + rat \<times> int \<times> rat \<times> rat \<times> rat"

text \<open>
  Modelled from the spec: \<^verbatim>\<open>Environment.get_agent\<close> is missing from the sources; the
  specification gives it as ``lookup by identifier; fails if unknown''. The result is the
  reference of the agent object.
\<close>

definition get_agent :: "'x environment \<Rightarrow> int \<Rightarrow> error + nat" where
  "get_agent env i = (case by_id env i of None \<Rightarrow> Inl (UnknownAgent i) | Some r \<Rightarrow> Inr r)"

definition update_agent :: "nat \<Rightarrow> 'x agent \<Rightarrow> 'x auction \<Rightarrow> 'x auction" where
  "update_agent r a s =
     s\<lparr>environment := (environment s)\<lparr>objects := (objects (environment s))(r := a)\<rparr>\<rparr>"

section \<open>Settlement\<close>

text \<open>The test of line 53, negated: neither surplus is negative.\<close>

definition surplus_ok :: "trade \<Rightarrow> bool" where
  "surplus_ok t = (\<not> (buyer_value t - trade_price t < 0 \<or> trade_price t - seller_cost t < 0))"

text \<open>
  One iteration of the loop of \<^verbatim>\<open>execute_trades\<close>. The result is the exception that
  left the loop, if any, and the auction as the iteration leaves it.
\<close>

definition execute_trade :: "'x collaborators \<Rightarrow> trade \<Rightarrow> 'x auction \<Rightarrow> error option \<times> 'x auction" where
  "execute_trade c t s =
     (case get_agent (environment s) (buyer_id t) of
        Inl e \<Rightarrow> (Some e, s)
      | Inr buyer \<Rightarrow>
     (case get_agent (environment s) (seller_id t) of
        Inl e \<Rightarrow> (Some e, s)
      | Inr seller \<Rightarrow>
     (let buyer_surplus = buyer_value t - trade_price t;
          seller_surplus = trade_price t - seller_cost t
      in if buyer_surplus < 0 \<or> seller_surplus < 0 then (None, s)
         else
          (case finalize_trade c (objects (environment s) buyer) t of
             (Some e, b) \<Rightarrow> (Some e, update_agent buyer b s)
           | (None, b) \<Rightarrow>
          (let s1 = update_agent buyer b s in
           case finalize_trade c (objects (environment s1) seller) t of
             (Some e, a) \<Rightarrow> (Some e, update_agent seller a s1)
           | (None, a) \<Rightarrow>
               (None, (update_agent seller a s1)
                  \<lparr>total_surplus_extracted :=
                     total_surplus_extracted s + (buyer_surplus + seller_surplus),
                   average_prices := average_prices s @ [trade_price t],
                   successful_trades := successful_trades s @ [t],
                   trade_history := trade_history s @ [t]\<rparr>))))))"

fun execute_trades :: "'x collaborators \<Rightarrow> trade list \<Rightarrow> 'x auction \<Rightarrow> error option \<times> 'x auction" where
  "execute_trades c [] s = (None, s)"
| "execute_trades c (t # ts) s =
     (case execute_trade c t s of
        (Some e, s') \<Rightarrow> (Some e, s')
      | (None, s') \<Rightarrow> execute_trades c ts s')"

section \<open>Market information\<close>

text \<open>\<^verbatim>\<open>max\<close> and \<^verbatim>\<open>min\<close> over a generator: \<^verbatim>\<open>ValueError\<close> when it yields nothing.\<close>

definition py_max :: "rat list \<Rightarrow> error + rat" where
  "py_max xs = (case xs of [] \<Rightarrow> Inl ValueError | x # ys \<Rightarrow> Inr (fold max ys x))"

definition py_min :: "rat list \<Rightarrow> error + rat" where
  "py_min xs = (case xs of [] \<Rightarrow> Inl ValueError | x # ys \<Rightarrow> Inr (fold min ys x))"

text \<open>\<^verbatim>\<open>x or d\<close> for an optional number \<open>x\<close>: \<open>None\<close> and zero are both falsy.\<close>

definition py_or :: "rat option \<Rightarrow> rat \<Rightarrow> rat" where
  "py_or x d = (case x of None \<Rightarrow> d | Some v \<Rightarrow> if v = 0 then d else v)"

definition get_market_info :: "'x collaborators \<Rightarrow> 'x auction \<Rightarrow> error + market_info" where
  "get_market_info c s =
     (let last_price =
            (if average_prices s \<noteq> [] then Some (last (average_prices s)) else None);
          avg_price =
            (if average_prices s \<noteq> []
             then Some (sum_list (average_prices s) / of_nat (length (average_prices s)))
             else None)
      in case (last_price, avg_price) of
           (Some l, Some a) \<Rightarrow>
             Inr \<lparr>last_trade_price = l, average_price = a,
                  total_trades = int (length (successful_trades s)),
                  info_current_round = current_round s\<rparr>
         | _ \<Rightarrow>
          (case py_max (map (\<lambda>r. get_value c (objects (environment s) r) 1)
                            (buyers (environment s))) of
             Inl e \<Rightarrow> Inl e
           | Inr buyer_base_value \<Rightarrow>
          (case py_min (map (\<lambda>r. get_value c (objects (environment s) r) 1)
                            (sellers (environment s))) of
             Inl e \<Rightarrow> Inl e
           | Inr seller_base_value \<Rightarrow>
          (let initial_price_estimate = (buyer_base_value + seller_base_value) / 2
           in Inr \<lparr>last_trade_price = py_or last_price initial_price_estimate,
                   average_price = py_or avg_price initial_price_estimate,
                   total_trades = int (length (successful_trades s)),
                   info_current_round = current_round s\<rparr>))))"

section \<open>Round loop\<close>

text \<open>
  \<^verbatim>\<open>d.get(k, default)\<close> and \<^verbatim>\<open>len(d)\<close> for the dictionary of a preference schedule:
  the number of entries of a dictionary is the number of its keys.
\<close>

definition dict_get :: "(int \<times> rat) list \<Rightarrow> int \<Rightarrow> rat \<Rightarrow> rat" where
  "dict_get d k dflt = (case map_of d k of None \<Rightarrow> dflt | Some v \<Rightarrow> v)"

definition dict_len :: "(int \<times> rat) list \<Rightarrow> int" where
  "dict_len d = int (length (remdups (map fst d)))"

text \<open>The conditions of lines 81 and 90 under which \<^verbatim>\<open>generate_bid\<close> is called.\<close>

definition buyer_eligible :: "'x agent \<Rightarrow> bool" where
  "buyer_eligible a =
     (of_int (goods a) < dict_get (pref_values a) (dict_len (pref_values a)) 0)"

definition seller_eligible :: "'x agent \<Rightarrow> bool" where
  "seller_eligible a = (goods a > 0)"

text \<open>
  The two loops of lines 80 to 85 and 89 to 94 differ in their condition only. The result
  is the exception that left the loop, if any, the orders collected and the environment
  with the agents as \<^verbatim>\<open>generate_bid\<close> left them.
\<close>

fun collect_orders ::
  "('x agent \<Rightarrow> bool) \<Rightarrow> 'x collaborators \<Rightarrow> market_info \<Rightarrow> nat list \<Rightarrow> 'x environment
    \<Rightarrow> order list \<Rightarrow> error option \<times> order list \<times> 'x environment" where
  "collect_orders eligible c info [] env orders = (None, orders, env)"
| "collect_orders eligible c info (r # rs) env orders =
     (if eligible (objects env r) then
        (case generate_bid c (objects env r) info of
           (Inl e, a) \<Rightarrow> (Some e, orders, env\<lparr>objects := (objects env)(r := a)\<rparr>)
         | (Inr None, a) \<Rightarrow>
             collect_orders eligible c info rs (env\<lparr>objects := (objects env)(r := a)\<rparr>) orders
         | (Inr (Some bid), a) \<Rightarrow>
             collect_orders eligible c info rs (env\<lparr>objects := (objects env)(r := a)\<rparr>)
               (orders @ [bid]))
      else collect_orders eligible c info rs env orders)"

definition collect_bids ::
  "'x collaborators \<Rightarrow> market_info \<Rightarrow> 'x environment \<Rightarrow> error option \<times> order list \<times> 'x environment" where
  "collect_bids c info env = collect_orders buyer_eligible c info (buyers env) env []"

definition collect_asks ::
  "'x collaborators \<Rightarrow> market_info \<Rightarrow> 'x environment \<Rightarrow> error option \<times> order list \<times> 'x environment" where
  "collect_asks c info env = collect_orders seller_eligible c info (sellers env) env []"

text \<open>The body of the \<^verbatim>\<open>for round_num in range(...)\<close> loop, lines 72 to 99.\<close>

definition run_round :: "'x collaborators \<Rightarrow> int \<Rightarrow> 'x auction \<Rightarrow> error option \<times> 'x auction" where
  "run_round c round_num s0 =
     (let s = s0\<lparr>current_round := round_num\<rparr> in
      case get_market_info c s of
        Inl e \<Rightarrow> (Some e, s)
      | Inr info \<Rightarrow>
     (case collect_bids c info (environment s) of
        (Some e, bids, env1) \<Rightarrow> (Some e, s\<lparr>environment := env1\<rparr>)
      | (None, bids, env1) \<Rightarrow>
     (case collect_asks c info env1 of
        (Some e, asks, env2) \<Rightarrow> (Some e, s\<lparr>environment := env2\<rparr>)
      | (None, asks, env2) \<Rightarrow>
     (case match_orders (s\<lparr>environment := env2\<rparr>) bids asks round_num of
        (trades, bids', asks', s2) \<Rightarrow>
     (case (if trades \<noteq> [] then execute_trades c trades s2 else (None, s2)) of
        (Some e, s3) \<Rightarrow> (Some e, s3)
      | (None, s3) \<Rightarrow> (None, s3\<lparr>current_round := current_round s3 + 1\<rparr>))))))"

text \<open>
  The loop itself. \<^verbatim>\<open>range(self.current_round + 1, self.max_rounds + 1)\<close> is evaluated
  once, before the first iteration, so the loop runs over a fixed list of round numbers.
\<close>

fun run_rounds :: "'x collaborators \<Rightarrow> int list \<Rightarrow> 'x auction \<Rightarrow> error option \<times> 'x auction" where
  "run_rounds c [] s = (None, s)"
| "run_rounds c (round_num # rounds) s =
     (case run_round c round_num s of
        (Some e, s') \<Rightarrow> (Some e, s')
      | (None, s') \<Rightarrow> run_rounds c rounds s')"

text \<open>
  \<^verbatim>\<open>summarize_results\<close> prints and assigns nothing; the division of line 125 is guarded.
  What is left of it in the model is the call of \<^verbatim>\<open>calculate_equilibrium\<close>, which may
  raise.
\<close>

definition summarize_results :: "'x collaborators \<Rightarrow> 'x auction \<Rightarrow> error option" where
  "summarize_results c s =
     (case calculate_equilibrium c (environment s) of Inl e \<Rightarrow> Some e | Inr eq \<Rightarrow> None)"

text \<open>
  How a call of \<^verbatim>\<open>run_auction\<close> ends: with the report that the maximum number of
  rounds was reached already, after the loop and the summary, or with an exception.
\<close>

datatype outcome = AlreadyEnded | Completed | Raised error

definition run_auction :: "'x collaborators \<Rightarrow> 'x auction \<Rightarrow> outcome \<times> 'x auction" where
  "run_auction c s =
     (if current_round s \<ge> max_rounds s then (AlreadyEnded, s)
      else
        (case run_rounds c [current_round s + 1 .. max_rounds s] s of
           (Some e, s') \<Rightarrow> (Raised e, s')
         | (None, s') \<Rightarrow>
            (case summarize_results c s' of
               Some e \<Rightarrow> (Raised e, s')
             | None \<Rightarrow> (Completed, s'))))"

definition get_order_book :: "'x auction \<Rightarrow> book_entry list" where
  "get_order_book s = order_book s"

definition get_trade_history :: "'x auction \<Rightarrow> trade list" where
  "get_trade_history s = trade_history s"

section \<open>A small market\<close>

text \<open>
  Two buyers (identifiers 1 and 2, no goods, two units each) and two sellers
  (identifiers 3 and 4, two goods each), with agents that quote the same order in every
  round: bids at 100 and 90, asks at 80 and 95. Finalising a trade moves the traded
  quantity of goods. The two bids and the two asks are also given as lists, for the
  matching engine alone.
\<close>

definition ex_agent :: "int \<Rightarrow> int \<Rightarrow> (int \<times> rat) list \<Rightarrow> unit agent" where
  "ex_agent i g vs = \<lparr>zi_id = i, goods = g, pref_values = vs, rest = ()\<rparr>"

definition ex_objects :: "nat \<Rightarrow> unit agent" where
  "ex_objects r =
     (if r = 0 then ex_agent 1 0 [(1, 100), (2, 95)]
      else if r = 1 then ex_agent 2 0 [(1, 95), (2, 90)]
      else if r = 2 then ex_agent 3 2 [(1, 70), (2, 75)]
      else ex_agent 4 2 [(1, 85), (2, 90)])"

definition ex_env :: "unit environment" where
  "ex_env =
     \<lparr>objects = ex_objects, buyers = [0, 1], sellers = [2, 3],
      by_id = [1 \<mapsto> 0, 2 \<mapsto> 1, 3 \<mapsto> 2, 4 \<mapsto> 3]\<rparr>"

definition ex_quote :: "unit agent \<Rightarrow> order" where
  "ex_quote a =
     (if zi_id a = 1 then
        \<lparr>agent_id = 1, price = 100, quantity = 3, base_value = 100, base_cost = 0\<rparr>
      else if zi_id a = 2 then
        \<lparr>agent_id = 2, price = 90, quantity = 1, base_value = 95, base_cost = 0\<rparr>
      else if zi_id a = 3 then
        \<lparr>agent_id = 3, price = 80, quantity = 2, base_value = 0, base_cost = 70\<rparr>
      else
        \<lparr>agent_id = 4, price = 95, quantity = 1, base_value = 0, base_cost = 85\<rparr>)"

definition ex_finalize :: "unit agent \<Rightarrow> trade \<Rightarrow> error option \<times> unit agent" where
  "ex_finalize a t =
     (None, if zi_id a = buyer_id t then a\<lparr>goods := goods a + trade_quantity t\<rparr>
            else a\<lparr>goods := goods a - trade_quantity t\<rparr>)"

definition ex_coll :: "unit collaborators" where
  "ex_coll =
     \<lparr>generate_bid = (\<lambda>a info. (Inr (Some (ex_quote a)), a)),
      finalize_trade = ex_finalize,
      get_value = (\<lambda>a k. case map_of (pref_values a) k of None \<Rightarrow> 0 | Some v \<Rightarrow> v),
      calculate_equilibrium = (\<lambda>env. Inr (85, 2, 15, 15, 30))\<rparr>"

definition ex_bids :: "order list" where
  "ex_bids =
     [\<lparr>agent_id = 2, price = 90, quantity = 1, base_value = 95, base_cost = 0\<rparr>,
      \<lparr>agent_id = 1, price = 100, quantity = 3, base_value = 100, base_cost = 0\<rparr>]"

definition ex_asks :: "order list" where
  "ex_asks =
     [\<lparr>agent_id = 3, price = 80, quantity = 2, base_value = 0, base_cost = 70\<rparr>,
      \<lparr>agent_id = 4, price = 95, quantity = 1, base_value = 0, base_cost = 85\<rparr>]"

text \<open>
  The trade that the first round of the small market forms and settles, a trade whose
  price exceeds the value of its buyer, the trade of the second round, and the auction
  after these two rounds.
\<close>

definition ex_settled :: trade where
  "ex_settled =
     \<lparr>trade_id = 0, buyer_id = 1, seller_id = 3, trade_quantity = 2, trade_price = 90,
      buyer_value = 100, seller_cost = 70, trade_round = 1\<rparr>"

definition ex_rejected :: trade where
  "ex_rejected =
     \<lparr>trade_id = 1, buyer_id = 2, seller_id = 4, trade_quantity = 1, trade_price = 191 / 2,
      buyer_value = 95, seller_cost = 85, trade_round = 1\<rparr>"



text \<open>
  Two states of the first buyer: holding as many goods as its schedule has units, and
  holding one good with a schedule whose last unit is valued at 1.
\<close>

definition ex_full_buyer :: "unit agent" where
  "ex_full_buyer = ex_agent 1 2 [(1, 100), (2, 95)]"

definition ex_low_buyer :: "unit agent" where
  "ex_low_buyer = ex_agent 1 1 [(1, 5), (2, 1)]"

section \<open>Growth of the histories\<close>

text \<open>
  \<open>grows s s'\<close> relates an auction to a later one: the three histories were extended by
  the same trades, each with both surpluses non-negative and with an identifier issued
  between the two states, in increasing order; \<open>max_rounds\<close> is the same.
\<close>

definition grows :: "'x auction \<Rightarrow> 'x auction \<Rightarrow> bool" where
  "grows s s' =
     (\<exists>ss. successful_trades s' = successful_trades s @ ss \<and>
           trade_history s' = trade_history s @ ss \<and>
           average_prices s' = average_prices s @ map trade_price ss \<and>
           sorted_wrt (<) (map trade_id ss) \<and>
           (\<forall>t \<in> set ss. surplus_ok t \<and> trade_counter s \<le> trade_id t \<and> trade_id t < trade_counter s') \<and>
           trade_counter s \<le> trade_counter s' \<and>
           max_rounds s' = max_rounds s)"

section \<open>Properties of the matching engine\<close>

lemma match_loop_closed:
  "match_loop s bs as r acc =
     (acc @ trades_from (trade_counter s) r (matched bs as),
      drop (length (matched bs as)) bs,
      drop (length (matched bs as)) as,
      s\<lparr>trade_counter := trade_counter s + int (length (matched bs as)),
        order_book := order_book s @ map book_entry_of (trades_from (trade_counter s) r (matched bs as))\<rparr>)"
proof (induction s bs as r acc rule: match_loop.induct)
  case (1 s bid bids ask asks round_num trades)
  show ?case
  proof (cases "price bid \<ge> price ask")
    case True
    then show ?thesis
      using 1 by (simp add: matched_def crossing_def Let_def)
  next
    case False
    then show ?thesis by (simp add: matched_def crossing_def)
  qed
qed (simp_all add: matched_def)

lemma length_trades_from [simp]: "length (trades_from c r ps) = length ps"
  by (induction ps arbitrary: c) simp_all

lemma trades_from_nth:
  "i < length ps \<Longrightarrow>
   trades_from c r ps ! i = make_trade (c + int i) (fst (ps ! i)) (snd (ps ! i)) r"
proof (induction ps arbitrary: c i)
  case Nil
  then show ?case by simp
next
  case (Cons p ps)
  show ?case
  proof (cases i)
    case 0
    then show ?thesis by simp
  next
    case (Suc j)
    with Cons.prems have "j < length ps" by simp
    from Cons.IH [OF this, of "c + 1"] Suc show ?thesis by (simp add: add.assoc)
  qed
qed

lemma length_matched_le:
  "length (matched bs as) \<le> length bs" "length (matched bs as) \<le> length as"
  using length_takeWhile_le [of crossing "zip bs as"] by (simp_all add: matched_def)

lemma matched_nth:
  assumes "i < length (matched bs as)"
  shows "matched bs as ! i = (bs ! i, as ! i)" and "price (as ! i) \<le> price (bs ! i)"
proof -
  from assms length_matched_le [of bs as] have i: "i < length bs" "i < length as" by simp_all
  from assms have "matched bs as ! i = zip bs as ! i"
    unfolding matched_def by (rule takeWhile_nth)
  with i show eq: "matched bs as ! i = (bs ! i, as ! i)" by simp
  from assms have "matched bs as ! i \<in> set (takeWhile crossing (zip bs as))"
    by (simp add: matched_def)
  then have "crossing (matched bs as ! i)" by (rule set_takeWhileD [THEN conjunct2])
  with eq show "price (as ! i) \<le> price (bs ! i)" by (simp add: crossing_def)
qed

lemma match_orders_closed:
  "match_orders s bids asks r =
     (trades_from (trade_counter s) r (matched (sort_bids bids) (sort_asks asks)),
      drop (length (matched (sort_bids bids) (sort_asks asks))) (sort_bids bids),
      drop (length (matched (sort_bids bids) (sort_asks asks))) (sort_asks asks),
      s\<lparr>trade_counter :=
          trade_counter s + int (length (matched (sort_bids bids) (sort_asks asks))),
        order_book := order_book s @ map book_entry_of
          (trades_from (trade_counter s) r (matched (sort_bids bids) (sort_asks asks)))\<rparr>)"
  by (simp add: match_orders_def match_loop_closed)

lemma match_orders_nth:
  assumes "match_orders s bids asks r = (trades, bids', asks', s')" and "i < length trades"
  shows "trades ! i = make_trade (trade_counter s + int i) (sort_bids bids ! i) (sort_asks asks ! i) r"
    and "price (sort_asks asks ! i) \<le> price (sort_bids bids ! i)"
proof -
  let ?M = "matched (sort_bids bids) (sort_asks asks)"
  from assms(1) have tr: "trades = trades_from (trade_counter s) r ?M"
    by (simp add: match_orders_closed)
  with assms(2) have i: "i < length ?M" by simp
  from trades_from_nth [OF i] matched_nth(1) [OF i] tr
  show "trades ! i = make_trade (trade_counter s + int i) (sort_bids bids ! i) (sort_asks asks ! i) r"
    by simp
  from matched_nth(2) [OF i]
  show "price (sort_asks asks ! i) \<le> price (sort_bids bids ! i)" .
qed

lemma sort_bids_props:
  "length (sort_bids bids) = length bids" "set (sort_bids bids) = set bids"
  "sorted_wrt (\<lambda>x y. price x \<ge> price y) (sort_bids bids)"
proof -
  have "sorted (map price (sort_key price (rev bids)))" by (rule sorted_sort_key)
  then have "sorted_wrt (\<lambda>x y. price x \<le> price y) (sort_key price (rev bids))"
    by (simp add: sorted_map)
  then show "sorted_wrt (\<lambda>x y. price x \<ge> price y) (sort_bids bids)"
    by (simp add: sort_bids_def sorted_wrt_rev)
qed (simp_all add: sort_bids_def)

lemma sort_asks_props:
  "length (sort_asks asks) = length asks" "set (sort_asks asks) = set asks"
  "sorted_wrt (\<lambda>x y. price x \<le> price y) (sort_asks asks)"
proof -
  have "sorted (map price (sort_key price asks))" by (rule sorted_sort_key)
  then show "sorted_wrt (\<lambda>x y. price x \<le> price y) (sort_asks asks)"
    by (simp add: sort_asks_def sorted_map)
qed (simp_all add: sort_asks_def)

text \<open>The matching engine on the two bids and two asks of the small market.\<close>

lemma ex_match:
  "match_orders (init ex_env 5) ex_bids ex_asks 1 =
     ([ex_settled],
      [\<lparr>agent_id = 2, price = 90, quantity = 1, base_value = 95, base_cost = 0\<rparr>],
      [\<lparr>agent_id = 4, price = 95, quantity = 1, base_value = 0, base_cost = 85\<rparr>],
      (init ex_env 5)\<lparr>trade_counter := 1,
         order_book := [\<lparr>entry_price = 90, shares = 2, total = 180\<rparr>]\<rparr>)"
  by (simp add: match_orders_def sort_bids_def sort_asks_def ex_bids_def ex_asks_def
      ex_settled_def make_trade_def book_entry_of_def init_def)





text \<open>
  Claim C2. The quantity of every trade produced by \<open>match_orders\<close> is the minimum of
  the quantities of its bid and its ask, so it exceeds neither. What \<open>match_orders\<close>
  leaves of the two lists is the sorted list without its matched prefix: a matched order
  is removed whole, whatever its quantity, and nothing is put back.
\<close>

theorem match_orders_quantity_removal:
  assumes "match_orders s bids asks r = (trades, bids', asks', s')"
  shows "(\<forall>i < length trades.
       trades ! i = make_trade (trade_counter s + int i) (sort_bids bids ! i) (sort_asks asks ! i) r \<and>
       trade_quantity (trades ! i) = min (quantity (sort_bids bids ! i)) (quantity (sort_asks asks ! i)) \<and>
       trade_quantity (trades ! i) \<le> quantity (sort_bids bids ! i) \<and>
       trade_quantity (trades ! i) \<le> quantity (sort_asks asks ! i)) \<and>
     bids' = drop (length trades) (sort_bids bids) \<and>
     asks' = drop (length trades) (sort_asks asks) \<and>
     length bids' + length trades = length bids \<and>
     length asks' + length trades = length asks"
proof (intro conjI allI impI)
  let ?M = "matched (sort_bids bids) (sort_asks asks)"
  from assms have len: "length trades = length ?M" by (auto simp: match_orders_closed)
  from assms len show b: "bids' = drop (length trades) (sort_bids bids)"
    by (simp add: match_orders_closed)
  from assms len show a: "asks' = drop (length trades) (sort_asks asks)"
    by (simp add: match_orders_closed)
  from len length_matched_le(1) [of "sort_bids bids" "sort_asks asks"]
  show "length bids' + length trades = length bids" by (simp add: b sort_bids_props)
  from len length_matched_le(2) [of "sort_bids bids" "sort_asks asks"]
  show "length asks' + length trades = length asks" by (simp add: a sort_asks_props)
next
  fix i assume i: "i < length trades"
  let ?b = "sort_bids bids ! i" and ?a = "sort_asks asks ! i"
  show eq: "trades ! i = make_trade (trade_counter s + int i) ?b ?a r"
    by (rule match_orders_nth(1) [OF assms i])
  show q: "trade_quantity (trades ! i) = min (quantity ?b) (quantity ?a)"
    by (simp add: eq make_trade_def)
  show "trade_quantity (trades ! i) \<le> quantity ?b" by (simp add: q)
  show "trade_quantity (trades ! i) \<le> quantity ?a" by (simp add: q)
qed

theorem match_orders_quantity_removal_witness:
  "match_orders (init ex_env 5) ex_bids ex_asks 1 =
     ([ex_settled],
      [\<lparr>agent_id = 2, price = 90, quantity = 1, base_value = 95, base_cost = 0\<rparr>],
      [\<lparr>agent_id = 4, price = 95, quantity = 1, base_value = 0, base_cost = 85\<rparr>],
      (init ex_env 5)\<lparr>trade_counter := 1,
         order_book := [\<lparr>entry_price = 90, shares = 2, total = 180\<rparr>]\<rparr>) \<and>
   (0::nat) < length [ex_settled] \<and>
   quantity (sort_bids ex_bids ! 0) = 3 \<and> quantity (sort_asks ex_asks ! 0) = 2 \<and>
   trade_quantity ([ex_settled] ! 0) = 2 \<and>
   [\<lparr>agent_id = 2, price = 90, quantity = 1, base_value = 95, base_cost = 0\<rparr>]
     = drop (length [ex_settled]) (sort_bids ex_bids)"
  using match_orders_quantity_removal [OF ex_match] ex_match
  by (simp add: sort_bids_def sort_asks_def ex_bids_def ex_asks_def)

lemma trades_from_ids:
  "sorted_wrt (<) (map trade_id (trades_from c r ps)) \<and>
   (\<forall>t \<in> set (trades_from c r ps). c \<le> trade_id t \<and> trade_id t < c + int (length ps))"
proof (induction ps arbitrary: c)
  case Nil
  then show ?case by simp
next
  case (Cons p ps)
  from Cons.IH [of "c + 1"] show ?case
    by (fastforce simp: make_trade_def)
qed

lemma trades_from_id_list:
  "map trade_id (trades_from c r ps) = map (\<lambda>i. c + int i) [0..<length ps]"
  by (rule nth_equalityI) (simp_all add: trades_from_nth make_trade_def)

section \<open>Properties of settlement\<close>

lemma execute_trade_rejected:
  "\<not> surplus_ok t \<Longrightarrow> snd (execute_trade c t s) = s"
  by (simp add: execute_trade_def surplus_ok_def Let_def split: sum.splits)

lemma execute_trade_unknown_agent:
  "by_id (environment s) (buyer_id t) = None \<or> by_id (environment s) (seller_id t) = None
   \<Longrightarrow> snd (execute_trade c t s) = s \<and> fst (execute_trade c t s) \<noteq> None"
  by (auto simp: execute_trade_def get_agent_def split: sum.splits option.splits)

lemma execute_trade_frame:
  assumes "execute_trade c t s = (r, s')"
  shows "max_rounds s' = max_rounds s" "current_round s' = current_round s"
    "order_book s' = order_book s" "trade_counter s' = trade_counter s"
  using assms
  by (auto simp: execute_trade_def update_agent_def Let_def
      split: sum.splits option.splits prod.splits if_splits)

lemma execute_trade_cases:
  assumes "execute_trade c t s = (r, s')"
  shows "(r = None \<and> surplus_ok t \<and>
          successful_trades s' = successful_trades s @ [t] \<and>
          trade_history s' = trade_history s @ [t] \<and>
          average_prices s' = average_prices s @ [trade_price t] \<and>
          total_surplus_extracted s' = total_surplus_extracted s +
            ((buyer_value t - trade_price t) + (trade_price t - seller_cost t)))
       \<or> (r = None \<and> \<not> surplus_ok t \<and> s' = s)
       \<or> (r \<noteq> None \<and>
          successful_trades s' = successful_trades s \<and>
          trade_history s' = trade_history s \<and>
          average_prices s' = average_prices s \<and>
          total_surplus_extracted s' = total_surplus_extracted s)"
  using assms
  by (auto simp: execute_trade_def update_agent_def surplus_ok_def Let_def
      split: sum.splits option.splits prod.splits if_splits)

lemma execute_trades_frame:
  "execute_trades c ts s = (r, s') \<Longrightarrow>
   max_rounds s' = max_rounds s \<and> current_round s' = current_round s \<and>
   order_book s' = order_book s \<and> trade_counter s' = trade_counter s"
proof (induction ts arbitrary: s)
  case Nil
  then show ?case by simp
next
  case (Cons t ts)
  obtain r1 s1 where step: "execute_trade c t s = (r1, s1)" by (cases "execute_trade c t s")
  note fr = execute_trade_frame [OF step]
  show ?case
  proof (cases r1)
    case None
    with Cons.prems step have "execute_trades c ts s1 = (r, s')" by simp
    from Cons.IH [OF this] fr show ?thesis by simp
  next
    case (Some e)
    with Cons.prems step have "s' = s1" by simp
    with fr show ?thesis by simp
  qed
qed

lemma execute_trades_lists:
  "execute_trades c ts s = (r, s') \<Longrightarrow>
   \<exists>k \<le> length ts. (r = None \<longrightarrow> k = length ts) \<and>
     successful_trades s' = successful_trades s @ filter surplus_ok (take k ts) \<and>
     trade_history s' = trade_history s @ filter surplus_ok (take k ts) \<and>
     average_prices s' = average_prices s @ map trade_price (filter surplus_ok (take k ts))"
proof (induction ts arbitrary: s)
  case Nil
  then show ?case by simp
next
  case (Cons t ts)
  obtain r1 s1 where step: "execute_trade c t s = (r1, s1)" by (cases "execute_trade c t s")
  note cs = execute_trade_cases [OF step]
  show ?case
  proof (cases r1)
    case (Some e)
    with Cons.prems step have "s' = s1" "r = Some e" by simp_all
    with cs Some have
      "successful_trades s' = successful_trades s @ filter surplus_ok (take 0 (t # ts)) \<and>
       trade_history s' = trade_history s @ filter surplus_ok (take 0 (t # ts)) \<and>
       average_prices s' = average_prices s @ map trade_price (filter surplus_ok (take 0 (t # ts)))"
      by auto
    with \<open>r = Some e\<close> show ?thesis by blast
  next
    case None
    with Cons.prems step have "execute_trades c ts s1 = (r, s')" by simp
    from Cons.IH [OF this] obtain k where k: "k \<le> length ts" "r = None \<longrightarrow> k = length ts"
      "successful_trades s' = successful_trades s1 @ filter surplus_ok (take k ts)"
      "trade_history s' = trade_history s1 @ filter surplus_ok (take k ts)"
      "average_prices s' = average_prices s1 @ map trade_price (filter surplus_ok (take k ts))"
      by blast
    from cs None k have
      "Suc k \<le> length (t # ts) \<and> (r = None \<longrightarrow> Suc k = length (t # ts)) \<and>
       successful_trades s' = successful_trades s @ filter surplus_ok (take (Suc k) (t # ts)) \<and>
       trade_history s' = trade_history s @ filter surplus_ok (take (Suc k) (t # ts)) \<and>
       average_prices s' = average_prices s @ map trade_price (filter surplus_ok (take (Suc k) (t # ts)))"
      by auto
    then show ?thesis by blast
  qed
qed

section \<open>Properties of the round loop\<close>

text \<open>Every step of the auction extends the histories in the sense of \<open>grows\<close>.\<close>

lemma grows_refl: "grows s s"
  by (simp add: grows_def)

lemma grows_update [simp]:
  "grows (s\<lparr>current_round := n\<rparr>) s' = grows s s'"
  "grows (s\<lparr>environment := env\<rparr>) s' = grows s s'"
  "grows s (s'\<lparr>current_round := n\<rparr>) = grows s s'"
  "grows s (s'\<lparr>environment := env\<rparr>) = grows s s'"
  by (simp_all add: grows_def)

lemma grows_trans:
  assumes "grows s s1" and "grows s1 s2"
  shows "grows s s2"
proof -
  from assms(1) obtain xs where xs:
    "successful_trades s1 = successful_trades s @ xs"
    "trade_history s1 = trade_history s @ xs"
    "average_prices s1 = average_prices s @ map trade_price xs"
    "sorted_wrt (<) (map trade_id xs)"
    "\<forall>t \<in> set xs. surplus_ok t \<and> trade_counter s \<le> trade_id t \<and> trade_id t < trade_counter s1"
    "trade_counter s \<le> trade_counter s1" "max_rounds s1 = max_rounds s"
    unfolding grows_def by blast
  from assms(2) obtain ys where ys:
    "successful_trades s2 = successful_trades s1 @ ys"
    "trade_history s2 = trade_history s1 @ ys"
    "average_prices s2 = average_prices s1 @ map trade_price ys"
    "sorted_wrt (<) (map trade_id ys)"
    "\<forall>t \<in> set ys. surplus_ok t \<and> trade_counter s1 \<le> trade_id t \<and> trade_id t < trade_counter s2"
    "trade_counter s1 \<le> trade_counter s2" "max_rounds s2 = max_rounds s1"
    unfolding grows_def by blast
  have "sorted_wrt (<) (map trade_id (xs @ ys))"
    using xs(4,5) ys(4,5) by (fastforce simp: sorted_wrt_append)
  moreover have "\<forall>t \<in> set (xs @ ys).
      surplus_ok t \<and> trade_counter s \<le> trade_id t \<and> trade_id t < trade_counter s2"
    using xs(5,6) ys(5,6) by fastforce
  ultimately show ?thesis
    unfolding grows_def using xs ys
    by (intro exI [of _ "xs @ ys"]) simp
qed

lemma grows_lists:
  assumes "grows s s'"
  shows "trade_history s = successful_trades s \<Longrightarrow> trade_history s' = successful_trades s'"
    and "average_prices s = map trade_price (trade_history s)
         \<Longrightarrow> average_prices s' = map trade_price (trade_history s')"
  using assms by (auto simp: grows_def)

lemma grows_ids:
  assumes g: "grows s s'"
    and srt: "sorted_wrt (<) (map trade_id (successful_trades s))"
    and bnd: "\<forall>t \<in> set (successful_trades s). trade_id t < trade_counter s"
  shows "sorted_wrt (<) (map trade_id (successful_trades s'))"
    and "\<forall>t \<in> set (successful_trades s'). trade_id t < trade_counter s'"
proof -
  from g obtain ss where ss:
    "successful_trades s' = successful_trades s @ ss"
    "sorted_wrt (<) (map trade_id ss)"
    "\<forall>t \<in> set ss. trade_counter s \<le> trade_id t \<and> trade_id t < trade_counter s'"
    "trade_counter s \<le> trade_counter s'"
    unfolding grows_def by blast
  from srt bnd ss(2,3) have "sorted_wrt (<) (map trade_id (successful_trades s @ ss))"
    by (fastforce simp: sorted_wrt_append)
  with ss(1) show "sorted_wrt (<) (map trade_id (successful_trades s'))" by simp
  from bnd ss(3,4) have "\<forall>t \<in> set (successful_trades s @ ss). trade_id t < trade_counter s'"
    by fastforce
  with ss(1) show "\<forall>t \<in> set (successful_trades s'). trade_id t < trade_counter s'" by simp
qed

lemma match_orders_grows: "grows s (snd (snd (snd (match_orders s bids asks r))))"
  by (simp add: match_orders_closed grows_def)

lemma execute_trades_grows_lists:
  "trade_history s = successful_trades s \<Longrightarrow>
   trade_history (snd (execute_trades c ts s)) = successful_trades (snd (execute_trades c ts s))"
proof -
  assume eq: "trade_history s = successful_trades s"
  obtain r s' where ex: "execute_trades c ts s = (r, s')" by (cases "execute_trades c ts s")
  from execute_trades_lists [OF ex] eq have "trade_history s' = successful_trades s'" by auto
  with ex show ?thesis by simp
qed


text \<open>
  An agent that fails the condition is passed over: \<open>generate_bid\<close> does not occur in
  the result. An agent that meets it is asked, and its answer decides what is collected.
\<close>

lemma collect_orders_skips:
  "\<not> eligible (objects env r) \<Longrightarrow>
   collect_orders eligible c info (r # rs) env orders
     = collect_orders eligible c info rs env orders"
  by simp

lemma collect_orders_asks:
  "eligible (objects env r) \<Longrightarrow> generate_bid c (objects env r) info = (Inr (Some bid), a) \<Longrightarrow>
   collect_orders eligible c info (r # rs) env orders
     = collect_orders eligible c info rs (env\<lparr>objects := (objects env)(r := a)\<rparr>) (orders @ [bid])"
  by simp

lemma match_execute_grows:
  assumes m: "match_orders s1 bids asks n = (trades, bids', asks', s2)"
    and e: "(if trades \<noteq> [] then execute_trades c trades s2 else (None, s2)) = (r, s3)"
  shows "grows s1 s3" and "current_round s3 = current_round s1"
proof -
  let ?M = "matched (sort_bids bids) (sort_asks asks)"
  from m have tr: "trades = trades_from (trade_counter s1) n ?M"
    and s2: "s2 = s1\<lparr>trade_counter := trade_counter s1 + int (length ?M),
        order_book := order_book s1 @ map book_entry_of (trades_from (trade_counter s1) n ?M)\<rparr>"
    by (auto simp: match_orders_closed)
  from e have ex: "execute_trades c trades s2 = (r, s3)"
    by (cases trades) (simp_all split: if_splits)
  from execute_trades_frame [OF ex] s2
  have fr: "max_rounds s3 = max_rounds s1" "current_round s3 = current_round s1"
    "trade_counter s3 = trade_counter s1 + int (length ?M)" by simp_all
  from execute_trades_lists [OF ex] s2 obtain k where k:
    "successful_trades s3 = successful_trades s1 @ filter surplus_ok (take k trades)"
    "trade_history s3 = trade_history s1 @ filter surplus_ok (take k trades)"
    "average_prices s3 = average_prices s1 @ map trade_price (filter surplus_ok (take k trades))"
    by auto
  let ?ss = "filter surplus_ok (take k trades)"
  from trades_from_ids [of "trade_counter s1" n ?M] tr
  have srt: "sorted_wrt (<) (map trade_id trades)"
    and rng: "\<forall>t \<in> set trades. trade_counter s1 \<le> trade_id t \<and>
        trade_id t < trade_counter s1 + int (length ?M)" by simp_all
  from srt have "sorted_wrt (\<lambda>x y. trade_id x < trade_id y) trades" by (simp add: sorted_wrt_map)
  then have "sorted_wrt (\<lambda>x y. trade_id x < trade_id y) (take k trades)" by (rule sorted_wrt_take)
  then have "sorted_wrt (\<lambda>x y. trade_id x < trade_id y) ?ss" by (rule sorted_wrt_filter)
  then have 1: "sorted_wrt (<) (map trade_id ?ss)" by (simp add: sorted_wrt_map)
  have 2: "\<forall>t \<in> set ?ss. surplus_ok t \<and> trade_counter s1 \<le> trade_id t \<and> trade_id t < trade_counter s3"
    using rng fr(3) by (auto dest: in_set_takeD)
  from fr(3) have 3: "trade_counter s1 \<le> trade_counter s3" by simp
  show "grows s1 s3"
    unfolding grows_def using k 1 2 3 fr(1) by blast
  show "current_round s3 = current_round s1" by (rule fr(2))
qed

lemma run_round_cases:
  assumes "run_round c n s = (r, s')"
  obtains (early) env where "r \<noteq> None" and "s' = s\<lparr>current_round := n, environment := env\<rparr>"
  | (matching) env bids asks trades bids' asks' s2 s3 where
      "match_orders (s\<lparr>current_round := n, environment := env\<rparr>) bids asks n
         = (trades, bids', asks', s2)"
      and "(if trades \<noteq> [] then execute_trades c trades s2 else (None, s2)) = (r, s3)"
      and "s' = (if r = None then s3\<lparr>current_round := current_round s3 + 1\<rparr> else s3)"
proof -
  let ?s = "s\<lparr>current_round := n\<rparr>"
  show thesis
  proof (cases "get_market_info c ?s")
    case (Inl e)
    then have "run_round c n s = (Some e, ?s)"
      by (simp add: run_round_def)
    with assms have "r \<noteq> None" "s' = s\<lparr>current_round := n, environment := environment s\<rparr>"
      by auto
    then show thesis by (rule early)
  next
    case (Inr info)
    obtain rb bids env1 where cb: "collect_bids c info (environment s) = (rb, bids, env1)"
      by (cases "collect_bids c info (environment s)")
    show thesis
    proof (cases rb)
      case (Some e)
      with Inr cb have "run_round c n s = (Some e, ?s\<lparr>environment := env1\<rparr>)"
        by (simp add: run_round_def)
      with assms have "r \<noteq> None" "s' = s\<lparr>current_round := n, environment := env1\<rparr>"
        by auto
      then show thesis by (rule early)
    next
      case None
      note rb = this
      obtain ra asks env2 where ca: "collect_asks c info env1 = (ra, asks, env2)"
        by (cases "collect_asks c info env1")
      show thesis
      proof (cases ra)
        case (Some e)
        with Inr cb rb ca have "run_round c n s = (Some e, ?s\<lparr>environment := env2\<rparr>)"
          by (simp add: run_round_def)
        with assms have "r \<noteq> None" "s' = s\<lparr>current_round := n, environment := env2\<rparr>"
          by auto
        then show thesis by (rule early)
      next
        case None
        obtain trades bids' asks' s2 where
          m: "match_orders (s\<lparr>current_round := n, environment := env2\<rparr>) bids asks n
                = (trades, bids', asks', s2)"
          by (cases "match_orders (s\<lparr>current_round := n, environment := env2\<rparr>) bids asks n")
        obtain r3 s3 where
          e: "(if trades \<noteq> [] then execute_trades c trades s2 else (None, s2)) = (r3, s3)"
          by (cases "if trades \<noteq> [] then execute_trades c trades s2 else (None, s2)")
        from Inr cb rb ca None m e
        have "run_round c n s =
            (r3, if r3 = None then s3\<lparr>current_round := current_round s3 + 1\<rparr> else s3)"
          by (cases r3) (simp_all add: run_round_def)
        with assms
        have "r = r3" "s' = (if r3 = None then s3\<lparr>current_round := current_round s3 + 1\<rparr> else s3)"
          by auto
        with m e show thesis by (intro matching [of env2 bids asks trades bids' asks' s2 s3]) simp_all
      qed
    qed
  qed
qed

lemma run_round_grows:
  assumes "run_round c n s = (r, s')"
  shows "grows s s'" and "current_round s' = (if r = None then n + 1 else n)"
proof -
  from assms
  have "grows s s' \<and> current_round s' = (if r = None then n + 1 else n)"
  proof (cases rule: run_round_cases)
    case (early env)
    then show ?thesis by (auto simp: grows_refl)
  next
    case (matching env bids asks trades bids' asks' s2 s3)
    from match_execute_grows [OF matching(1,2)] matching(3)
    show ?thesis by simp
  qed
  then show "grows s s'" and "current_round s' = (if r = None then n + 1 else n)"
    by simp_all
qed

lemma run_rounds_grows:
  "run_rounds c rs s = (r, s') \<Longrightarrow> grows s s'"
proof (induction rs arbitrary: s)
  case Nil
  then show ?case by (simp add: grows_refl)
next
  case (Cons n rs)
  obtain r1 s1 where step: "run_round c n s = (r1, s1)" by (cases "run_round c n s")
  note g = run_round_grows(1) [OF step]
  show ?case
  proof (cases r1)
    case None
    with Cons.prems step have "run_rounds c rs s1 = (r, s')" by simp
    from grows_trans [OF g Cons.IH [OF this]] show ?thesis .
  next
    case (Some e)
    with Cons.prems step g show ?thesis by simp
  qed
qed

lemma run_rounds_current_round:
  "run_rounds c rs s = (None, s') \<Longrightarrow> rs \<noteq> [] \<Longrightarrow> current_round s' = last rs + 1"
proof (induction rs arbitrary: s)
  case Nil
  then show ?case by simp
next
  case (Cons n rs)
  obtain r1 s1 where step: "run_round c n s = (r1, s1)" by (cases "run_round c n s")
  with Cons.prems have r1: "r1 = None" and rest: "run_rounds c rs s1 = (None, s')"
    by (auto split: option.splits)
  show ?case
  proof (cases "rs = []")
    case True
    with rest run_round_grows(2) [OF step] r1 show ?thesis by simp
  next
    case False
    from Cons.IH [OF rest False] False show ?thesis by simp
  qed
qed

lemma run_auction_grows: "grows s (snd (run_auction c s))"
proof (cases "current_round s \<ge> max_rounds s")
  case True
  then show ?thesis by (simp add: run_auction_def grows_refl)
next
  case False
  obtain r s' where rr: "run_rounds c [current_round s + 1 .. max_rounds s] s = (r, s')"
    by (cases "run_rounds c [current_round s + 1 .. max_rounds s] s")
  from run_rounds_grows [OF rr] rr False show ?thesis
    by (simp add: run_auction_def split: option.splits)
qed

lemma price_history_reachable:
  "average_prices (snd (run_auction c (init env m)))
     = map trade_price (trade_history (snd (run_auction c (init env m))))"
  by (rule grows_lists(2) [OF run_auction_grows]) (simp add: init_def)

lemma last_upto_int: "i \<le> j \<Longrightarrow> last [i..j] = j"
  by (simp add: upto_rec2)



text \<open>Unfolding the functions on the small market.\<close>

lemmas ex_defs = ex_coll_def ex_env_def ex_objects_def ex_agent_def ex_quote_def ex_finalize_def

lemmas run_defs = run_auction_def run_round_def get_market_info_def py_max_def py_min_def
  py_or_def collect_bids_def buyer_eligible_def dict_get_def dict_len_def collect_asks_def
  seller_eligible_def match_orders_def sort_bids_def sort_asks_def make_trade_def
  book_entry_of_def execute_trade_def get_agent_def update_agent_def summarize_results_def

lemma ex_two_rounds:
  "map trade_id (successful_trades (snd (run_auction ex_coll (init ex_env 2)))) = [0, 1]"
  by (simp add: init_def ex_defs run_defs Let_def upto_rec1)

section \<open>Claims on settlement and the histories\<close>



text \<open>
  Claim C9. Settlement keeps \<open>successful_trades\<close> and \<open>average_prices\<close> at the same
  length: a settled trade is appended to the first and its price to the second, one entry
  each, and a trade that is rejected, or at which an exception leaves the loop, is
  appended to neither.
\<close>

theorem settlement_keeps_lengths:
  "(length (successful_trades s) = length (average_prices s) \<longrightarrow>
      length (successful_trades (snd (execute_trades c ts s)))
        = length (average_prices (snd (execute_trades c ts s)))) \<and>
   (successful_trades (snd (execute_trade c t s)) = successful_trades s @ [t] \<and>
    average_prices (snd (execute_trade c t s)) = average_prices s @ [trade_price t] \<and>
    surplus_ok t \<and> fst (execute_trade c t s) = None
    \<or>
    successful_trades (snd (execute_trade c t s)) = successful_trades s \<and>
    average_prices (snd (execute_trade c t s)) = average_prices s \<and>
    (\<not> surplus_ok t \<or> fst (execute_trade c t s) \<noteq> None)) \<and>
   (\<not> surplus_ok t \<longrightarrow>
      successful_trades (snd (execute_trade c t s)) = successful_trades s \<and>
      average_prices (snd (execute_trade c t s)) = average_prices s) \<and>
   length (successful_trades (snd (run_auction c (init env m))))
     = length (average_prices (snd (run_auction c (init env m))))"
proof (intro conjI impI)
  have "trade_history (init env m) = successful_trades (init env m)" by (simp add: init_def)
  from grows_lists(1) [OF run_auction_grows this] price_history_reachable [of c env m]
  show "length (successful_trades (snd (run_auction c (init env m))))
     = length (average_prices (snd (run_auction c (init env m))))" by simp
next
  assume eq: "length (successful_trades s) = length (average_prices s)"
  obtain r s' where ex: "execute_trades c ts s = (r, s')" by (cases "execute_trades c ts s")
  from execute_trades_lists [OF ex] obtain k where
    "successful_trades s' = successful_trades s @ filter surplus_ok (take k ts)"
    "average_prices s' = average_prices s @ map trade_price (filter surplus_ok (take k ts))"
    by blast
  with eq have "length (successful_trades s') = length (average_prices s')" by simp
  with ex show "length (successful_trades (snd (execute_trades c ts s)))
        = length (average_prices (snd (execute_trades c ts s)))" by simp
next
  obtain r s' where ex: "execute_trade c t s = (r, s')" by (cases "execute_trade c t s")
  from execute_trade_cases [OF ex] ex
  show "successful_trades (snd (execute_trade c t s)) = successful_trades s @ [t] \<and>
    average_prices (snd (execute_trade c t s)) = average_prices s @ [trade_price t] \<and>
    surplus_ok t \<and> fst (execute_trade c t s) = None
    \<or>
    successful_trades (snd (execute_trade c t s)) = successful_trades s \<and>
    average_prices (snd (execute_trade c t s)) = average_prices s \<and>
    (\<not> surplus_ok t \<or> fst (execute_trade c t s) \<noteq> None)"
    by auto
next
  assume "\<not> surplus_ok t"
  then have "snd (execute_trade c t s) = s" by (rule execute_trade_rejected)
  then show "successful_trades (snd (execute_trade c t s)) = successful_trades s"
    and "average_prices (snd (execute_trade c t s)) = average_prices s" by simp_all
qed

theorem settlement_keeps_lengths_witness:
  "length (successful_trades (init ex_env 1)) = length (average_prices (init ex_env 1)) \<and>
   successful_trades (snd (execute_trades ex_coll [ex_settled, ex_rejected] (init ex_env 1)))
     = [ex_settled] \<and>
   average_prices (snd (execute_trades ex_coll [ex_settled, ex_rejected] (init ex_env 1)))
     = [90] \<and>
   length (successful_trades (snd (execute_trades ex_coll [ex_settled, ex_rejected] (init ex_env 1))))
     = length (average_prices (snd (execute_trades ex_coll [ex_settled, ex_rejected] (init ex_env 1)))) \<and>
   \<not> surplus_ok ex_rejected \<and>
   successful_trades (snd (execute_trade ex_coll ex_rejected (init ex_env 1))) = [] \<and>
   average_prices (snd (execute_trade ex_coll ex_rejected (init ex_env 1))) = []"
  using settlement_keeps_lengths [of "init ex_env 1" ex_coll "[ex_settled, ex_rejected]" ex_rejected
      ex_env 1]
  by (simp add: ex_rejected_def ex_settled_def init_def ex_defs execute_trade_def get_agent_def
      update_agent_def surplus_ok_def)

text \<open>
  Claim C10. The list that \<open>get_trade_history\<close> returns equals \<open>successful_trades\<close>:
  the two are equal in the initial state, and matching, settlement and a run of the
  auction keep them equal.
\<close>

theorem trade_history_equals_successful_trades:
  "get_trade_history (init env m) = successful_trades (init env m) \<and>
   (trade_history s = successful_trades s \<longrightarrow>
      trade_history (snd (snd (snd (match_orders s bids asks r))))
        = successful_trades (snd (snd (snd (match_orders s bids asks r)))) \<and>
      trade_history (snd (execute_trades c ts s))
        = successful_trades (snd (execute_trades c ts s)) \<and>
      get_trade_history (snd (run_auction c s)) = successful_trades (snd (run_auction c s)))"
proof (intro conjI impI)
  show "get_trade_history (init env m) = successful_trades (init env m)"
    by (simp add: get_trade_history_def init_def)
next
  assume eq: "trade_history s = successful_trades s"
  from grows_lists(1) [OF match_orders_grows eq]
  show "trade_history (snd (snd (snd (match_orders s bids asks r))))
        = successful_trades (snd (snd (snd (match_orders s bids asks r))))" .
  from execute_trades_grows_lists [OF eq]
  show "trade_history (snd (execute_trades c ts s))
        = successful_trades (snd (execute_trades c ts s))" .
  from grows_lists(1) [OF run_auction_grows eq]
  show "get_trade_history (snd (run_auction c s)) = successful_trades (snd (run_auction c s))"
    by (simp add: get_trade_history_def)
qed

theorem trade_history_equals_successful_trades_witness:
  "trade_history (init ex_env 2) = successful_trades (init ex_env 2) \<and>
   map trade_id (get_trade_history (snd (run_auction ex_coll (init ex_env 2)))) = [0, 1] \<and>
   get_trade_history (snd (run_auction ex_coll (init ex_env 2)))
     = successful_trades (snd (run_auction ex_coll (init ex_env 2)))"
proof -
  have eq: "trade_history (init ex_env 2) = successful_trades (init ex_env 2)"
    by (simp add: init_def)
  have "map trade_id (trade_history (snd (run_auction ex_coll (init ex_env 2)))) = [0, 1]"
    by (simp add: init_def ex_defs run_defs Let_def upto_rec1)
  with trade_history_equals_successful_trades [of ex_env 2 "init ex_env 2" "[]" "[]" 0 ex_coll "[]"] eq
  show ?thesis by (simp add: get_trade_history_def)
qed

section \<open>Claims on the round loop\<close>

text \<open>
  Claim C4. When the round loop is entered and ends without an exception, the last
  iteration sets \<open>current_round\<close> to \<open>max_rounds\<close> and then increments it, so the loop
  leaves \<open>current_round\<close> at \<open>max_rounds + 1\<close>, above \<open>max_rounds\<close>.
\<close>

theorem round_loop_final_round:
  assumes "current_round s < max_rounds s"
    and "fst (run_rounds c [current_round s + 1 .. max_rounds s] s) = None"
  shows "current_round (snd (run_rounds c [current_round s + 1 .. max_rounds s] s))
           = max_rounds s + 1 \<and>
         max_rounds (snd (run_rounds c [current_round s + 1 .. max_rounds s] s)) = max_rounds s \<and>
         current_round (snd (run_auction c s)) = max_rounds (snd (run_auction c s)) + 1"
proof -
  let ?rs = "[current_round s + 1 .. max_rounds s]"
  obtain r s' where rr: "run_rounds c ?rs s = (r, s')" by (cases "run_rounds c ?rs s")
  with assms(2) have r: "r = None" by simp
  from assms(1) have ne: "?rs \<noteq> []" by simp
  from assms(1) have "last ?rs = max_rounds s" by (simp add: last_upto_int)
  with run_rounds_current_round [OF rr [unfolded r] ne]
  have cr: "current_round s' = max_rounds s + 1" by simp
  from run_rounds_grows [OF rr] have mr: "max_rounds s' = max_rounds s" by (auto simp: grows_def)
  from assms(1) rr r have "snd (run_auction c s) = s'"
    by (simp add: run_auction_def split: option.splits)
  with cr mr rr show ?thesis by simp
qed

theorem round_loop_final_round_witness:
  "current_round (init ex_env 1) < max_rounds (init ex_env 1) \<and>
   fst (run_rounds ex_coll [current_round (init ex_env 1) + 1 .. max_rounds (init ex_env 1)]
          (init ex_env 1)) = None \<and>
   fst (run_auction ex_coll (init ex_env 1)) = Completed \<and>
   current_round (snd (run_auction ex_coll (init ex_env 1))) = 2 \<and>
   max_rounds (snd (run_auction ex_coll (init ex_env 1))) = 1 \<and>
   \<not> current_round (snd (run_auction ex_coll (init ex_env 1)))
       \<le> max_rounds (snd (run_auction ex_coll (init ex_env 1)))"
  using round_loop_final_round [of "init ex_env 1" ex_coll]
  by (simp add: init_def ex_defs run_defs Let_def)

text \<open>
  Claim C5. The condition under which a bid is requested compares the goods of the buyer
  with the value that the schedule gives to its last unit, not with the number of units:
  the buyer holding two goods with a schedule of two units is asked for a bid, and the
  buyer holding one good with two units, the second valued at 1, is not.
\<close>

theorem buyer_eligibility_reads_value:
  "\<not> goods ex_full_buyer < dict_len (pref_values ex_full_buyer) \<and>
   buyer_eligible ex_full_buyer \<and>
   fst (snd (collect_bids ex_coll info (ex_env\<lparr>objects := ex_objects(0 := ex_full_buyer)\<rparr>)))
     = [ex_quote ex_full_buyer, ex_quote (ex_objects 1)] \<and>
   goods ex_low_buyer < dict_len (pref_values ex_low_buyer) \<and>
   \<not> buyer_eligible ex_low_buyer \<and>
   fst (snd (collect_bids ex_coll info (ex_env\<lparr>objects := ex_objects(0 := ex_low_buyer)\<rparr>)))
     = [ex_quote (ex_objects 1)]"
  by (simp add: ex_full_buyer_def ex_low_buyer_def collect_bids_def buyer_eligible_def
      dict_get_def dict_len_def ex_defs)

text \<open>
  Claim C7. Called with \<open>current_round\<close> at or above \<open>max_rounds\<close>, \<open>run_auction\<close>
  reports that the auction has ended and returns the auction unchanged, without an
  exception.
\<close>

theorem run_auction_past_completion:
  "current_round s \<ge> max_rounds s \<Longrightarrow> run_auction c s = (AlreadyEnded, s)"
  by (simp add: run_auction_def)

theorem run_auction_past_completion_witness:
  "current_round ((init ex_env 3)\<lparr>current_round := 3\<rparr>)
     \<ge> max_rounds ((init ex_env 3)\<lparr>current_round := 3\<rparr>) \<and>
   run_auction ex_coll ((init ex_env 3)\<lparr>current_round := 3\<rparr>)
     = (AlreadyEnded, (init ex_env 3)\<lparr>current_round := 3\<rparr>)"
  using run_auction_past_completion [of "(init ex_env 3)\<lparr>current_round := 3\<rparr>" ex_coll]
  by (simp add: init_def)

text \<open>
  Claim C8. The trades that \<open>match_orders\<close> forms carry the consecutive identifiers
  from \<open>trade_counter\<close> on, and the counter moves past them. A run of the auction keeps
  the identifiers of \<open>successful_trades\<close> strictly increasing, hence distinct, and
  below the counter; from the initial state they are strictly increasing.
\<close>

theorem trade_ids_strictly_increasing:
  "map trade_id (fst (match_orders s bids asks r))
     = map (\<lambda>i. trade_counter s + int i) [0..<length (fst (match_orders s bids asks r))] \<and>
   trade_counter (snd (snd (snd (match_orders s bids asks r))))
     = trade_counter s + int (length (fst (match_orders s bids asks r))) \<and>
   (sorted_wrt (<) (map trade_id (successful_trades s)) \<and>
    (\<forall>t \<in> set (successful_trades s). trade_id t < trade_counter s) \<longrightarrow>
      sorted_wrt (<) (map trade_id (successful_trades (snd (run_auction c s)))) \<and>
      distinct (map trade_id (successful_trades (snd (run_auction c s)))) \<and>
      (\<forall>t \<in> set (successful_trades (snd (run_auction c s))).
          trade_id t < trade_counter (snd (run_auction c s)))) \<and>
   sorted_wrt (<) (map trade_id (successful_trades (snd (run_auction c (init env m))))) \<and>
   distinct (map trade_id (successful_trades (snd (run_auction c (init env m)))))"
proof (intro conjI impI)
  show "map trade_id (fst (match_orders s bids asks r))
     = map (\<lambda>i. trade_counter s + int i) [0..<length (fst (match_orders s bids asks r))]"
    by (simp add: match_orders_closed trades_from_id_list)
  show "trade_counter (snd (snd (snd (match_orders s bids asks r))))
     = trade_counter s + int (length (fst (match_orders s bids asks r)))"
    by (simp add: match_orders_closed)
next
  assume inv: "sorted_wrt (<) (map trade_id (successful_trades s)) \<and>
    (\<forall>t \<in> set (successful_trades s). trade_id t < trade_counter s)"
  note ids = grows_ids [OF run_auction_grows [of s c] conjunct1 [OF inv] conjunct2 [OF inv]]
  from ids(1) show "sorted_wrt (<) (map trade_id (successful_trades (snd (run_auction c s))))" .
  from ids(1) show "distinct (map trade_id (successful_trades (snd (run_auction c s))))"
    by (simp add: strict_sorted_iff)
  from ids(2) show "\<forall>t \<in> set (successful_trades (snd (run_auction c s))).
          trade_id t < trade_counter (snd (run_auction c s))" .
next
  have "sorted_wrt (<) (map trade_id (successful_trades (init env m)))"
    and "\<forall>t \<in> set (successful_trades (init env m)). trade_id t < trade_counter (init env m)"
    by (simp_all add: init_def)
  note ids = grows_ids [OF run_auction_grows [of "init env m" c] this]
  from ids(1)
  show "sorted_wrt (<) (map trade_id (successful_trades (snd (run_auction c (init env m)))))" .
  from ids(1)
  show "distinct (map trade_id (successful_trades (snd (run_auction c (init env m)))))"
    by (simp add: strict_sorted_iff)
qed

theorem trade_ids_strictly_increasing_witness:
  "successful_trades (init ex_env 2) = [] \<and>
   map trade_id (successful_trades (snd (run_auction ex_coll (init ex_env 2)))) = [0, 1] \<and>
   sorted_wrt (<) (map trade_id (successful_trades (snd (run_auction ex_coll (init ex_env 2))))) \<and>
   distinct (map trade_id (successful_trades (snd (run_auction ex_coll (init ex_env 2)))))"
proof -
  have e: "successful_trades (init ex_env 2) = []"
    by (simp add: init_def)
  then have "sorted_wrt (<) (map trade_id (successful_trades (init ex_env 2))) \<and>
   (\<forall>t \<in> set (successful_trades (init ex_env 2)). trade_id t < trade_counter (init ex_env 2))"
    by simp
  with trade_ids_strictly_increasing [of "init ex_env 2" "[]" "[]" 0 ex_coll ex_env 2]
    ex_two_rounds e
  show ?thesis by simp
qed

section \<open>Claims on market information\<close>



end
